theory Spec2Isabelle
  imports Complex_Main "HOL-Library.Word" "HOL-Library.Multiset"
begin

section \<open>Data model of the audio detector (src/src/App.tsx, function App)\<close>

text \<open>
  The component keeps its session in React state and refs. The embedding collects them in one
  record that every handler takes and returns. JavaScript numbers are modelled as exact reals
  (no rounding, no NaN), a \<open>Float32Array\<close> as a \<open>real list\<close> and a \<open>Uint8Array\<close> as a list
  of bytes.
\<close>

datatype Status = Idle | Loading | Listening | Error

record Detection =
  id' :: string
  label :: string
  score :: real
  timestamp :: nat

record app =
  status :: Status
  detections :: "Detection list"
  error :: string
  model :: bool
  classNames :: "string list"
  summary :: string
  recordingTime :: nat
  isGeneratingSummary :: bool
  spectrumData :: "real list"
  analyserRef :: bool
  audioBufferRef :: "real list"
  scriptProcessorRef :: bool
  isListeningRef :: bool
  timerIntervalRef :: bool
  volumeHistoryRef :: "real list"
  spectrumSnapshotsRef :: "8 word list list"

text \<open>
  \<open>model\<close>, \<open>analyserRef\<close>, \<open>scriptProcessorRef\<close> and \<open>timerIntervalRef\<close> hold objects of the
  browser in the source; the embedding keeps whether they are set (non-null).
  The state of a freshly mounted component, before the model is loaded:
\<close>

definition initial :: app where
  "initial = \<lparr> status = Idle, detections = [], error = [], model = False, classNames = [],
     summary = [], recordingTime = 0, isGeneratingSummary = False, spectrumData = [],
     analyserRef = False, audioBufferRef = [], scriptProcessorRef = False,
     isListeningRef = False, timerIntervalRef = False, volumeHistoryRef = [],
     spectrumSnapshotsRef = [] \<rparr>"

text \<open>
  The effect \<open>loadModel\<close> run on mount: \<open>loaded\<close> tells whether \<open>tf.loadGraphModel\<close>
  succeeds, \<open>names\<close> is the parsed class map when its download succeeds. The model is set
  before the class map is fetched, so a failure of the fetch leaves a model without names.
\<close>

definition loadModel :: "bool \<Rightarrow> string list option \<Rightarrow> app \<Rightarrow> app" where
  "loadModel loaded names s =
     (let s1 = s\<lparr> status := Loading, error := [] \<rparr>;
          failed = ''Failed to load YAMNet model. Please refresh the page.''
      in if \<not> loaded then s1\<lparr> error := failed, status := Error \<rparr>
         else case names of
                Some ns \<Rightarrow> s1\<lparr> model := True, classNames := ns, status := Idle \<rparr>
              | None \<Rightarrow> s1\<lparr> model := True, error := failed, status := Error \<rparr>)"

section \<open>processAudioChunk\<close>

text \<open>The loop \<open>for (i = 0; i < audioData.length; i++) sum += audioData[i] * audioData[i]\<close>
  followed by \<open>Math.sqrt(sum / audioData.length)\<close>. The caller passes a frame of 15,600
  samples, so the division is never by zero.\<close>

definition rms :: "real list \<Rightarrow> real" where
  "rms audioData =
     (let sum = fold (\<lambda>x sum. sum + x * x) audioData 0
      in sqrt (sum / real (length audioData)))"

text \<open>
  The synchronous part of \<open>processAudioChunk\<close>, up to the call of the model: it returns the
  frame handed to the classifier (\<open>None\<close> when the guard skips the chunk) and the new state.
\<close>

definition processAudioChunk :: "app \<Rightarrow> real list option \<times> app" where
  "processAudioChunk s =
     (if \<not> model s \<or> length (classNames s) = 0 \<or> \<not> isListeningRef s then (None, s)
      else
        let audioData = take 15600 (audioBufferRef s);
            s1 = s\<lparr> volumeHistoryRef := volumeHistoryRef s @ [rms audioData] \<rparr>;
            s2 = s1\<lparr> audioBufferRef := drop 15600 (audioBufferRef s1) \<rparr>
        in (Some audioData, s2))"

text \<open>
  The rest of \<open>processAudioChunk\<close> runs after the classifier has answered: the sorted
  predictions are filtered and cut to five, and a non-empty batch is put in front of the
  detection history, which is cut to twenty.
\<close>

definition topPredictions :: "Detection list \<Rightarrow> Detection list" where
  "topPredictions predictions = take 5 (filter (\<lambda>p. score p > 0.2) predictions)"

definition setDetections :: "Detection list \<Rightarrow> app \<Rightarrow> app" where
  "setDetections batch s =
     (if length batch > 0 then s\<lparr> detections := take 20 (batch @ detections s) \<rparr> else s)"

section \<open>startListening and the audio callback\<close>

definition hasSound :: "real list \<Rightarrow> bool" where
  "hasSound inputData = list_ex (\<lambda>sample. \<bar>sample\<bar> > 0.01) inputData"

text \<open>\<open>analyser.fftSize = 2048\<close>, so \<open>frequencyBinCount\<close> is 1024: the snapshot is a fresh
  zero-filled byte array of that length which the analyser fills.\<close>

definition frequencyBinCount :: nat where
  "frequencyBinCount = 1024"

definition getByteFrequencyData :: "8 word list \<Rightarrow> 8 word list" where
  "getByteFrequencyData analyserData =
     take frequencyBinCount (analyserData @ replicate frequencyBinCount 0)"

text \<open>
  \<open>processor.onaudioprocess\<close>. The inputs are the burst, the value that \<open>Math.random()\<close>
  returns and the spectrum that the analyser holds at that moment.
\<close>

definition onaudioprocess :: "real list \<times> real \<times> 8 word list \<Rightarrow> app \<Rightarrow> real list option \<times> app" where
  "onaudioprocess e s =
     (case e of (inputData, random, analyserData) \<Rightarrow>
        let currentBuffer = audioBufferRef s;
            s1 = (if hasSound inputData then
                    (if analyserRef s \<and> length (spectrumSnapshotsRef s) < 50 \<and> random < 0.1
                     then s\<lparr> spectrumSnapshotsRef :=
                                spectrumSnapshotsRef s @ [getByteFrequencyData analyserData] \<rparr>
                     else s)
                  else s);
            s2 = s1\<lparr> audioBufferRef := currentBuffer @ inputData \<rparr>
        in if length (audioBufferRef s2) \<ge> 15600 then processAudioChunk s2 else (None, s2))"

text \<open>
  \<open>startListening\<close>. \<open>acquired\<close> tells whether \<open>getUserMedia\<close> (and the set-up of the audio
  graph behind it) succeeds; a failure is caught and leads to the error status.
\<close>

definition startListening :: "bool \<Rightarrow> app \<Rightarrow> app" where
  "startListening acquired s =
     (if \<not> model s \<or> length (classNames s) = 0 then s\<lparr> error := ''Model not loaded yet'' \<rparr>
      else
        let s1 = s\<lparr> status := Loading, error := [], spectrumData := [],
                    spectrumSnapshotsRef := [] \<rparr>
        in if acquired
           then s1\<lparr> analyserRef := True, scriptProcessorRef := True, status := Listening,
                    isListeningRef := True, recordingTime := 0, timerIntervalRef := True \<rparr>
           else s1\<lparr> error := ''Failed to access microphone. Please check permissions.'',
                    status := Error \<rparr>)"

text \<open>A run of audio callbacks: the frames handed to the classifier, in order, and the
  state after the last callback.\<close>

fun feed :: "(real list \<times> real \<times> 8 word list) list \<Rightarrow> app \<Rightarrow> real list list \<times> app" where
  "feed [] s = ([], s)"
| "feed (e # es) s =
     (case onaudioprocess e s of (frame, s') \<Rightarrow>
        case feed es s' of (frames, s'') \<Rightarrow>
          ((case frame of None \<Rightarrow> [] | Some f \<Rightarrow> [f]) @ frames, s''))"

section \<open>stopListening\<close>

text \<open>
  The average of the captured snapshots, bin by bin. Every snapshot comes from
  \<open>getByteFrequencyData\<close>, so all of them have the length of the first one.
\<close>

definition averageSnapshots :: "8 word list list \<Rightarrow> real list" where
  "averageSnapshots snapshots =
     (let bufferLength = length (snapshots ! 0);
          summed = map (\<lambda>i. fold (\<lambda>snapshot a. a + real (unat (snapshot ! i))) snapshots 0)
                       [0..<bufferLength]
      in map (\<lambda>a. a / real (length snapshots)) summed)"

text \<open>\<open>volumes.reduce((a, b) => a + b, 0)\<close>\<close>

definition reduce_add :: "real list \<Rightarrow> real" where
  "reduce_add volumes = foldl (+) 0 volumes"

text \<open>\<open>Math.max(...volumes)\<close> and \<open>Math.min(...volumes)\<close>; both are called on a non-empty
  array only (on an empty one JavaScript yields an infinity, which the reals do not have).\<close>

fun Math_max :: "real list \<Rightarrow> real" where
  "Math_max (v # vs) = fold max vs v"

fun Math_min :: "real list \<Rightarrow> real" where
  "Math_min (v # vs) = fold min vs v"

definition avgVolume :: "real list \<Rightarrow> real" where
  "avgVolume volumes = reduce_add volumes / real (length volumes)"

definition peakVolume :: "real list \<Rightarrow> real" where
  "peakVolume volumes = Math_max volumes"

definition minVolume :: "real list \<Rightarrow> real" where
  "minVolume volumes = Math_min volumes"

definition volumeRange :: "real list \<Rightarrow> real" where
  "volumeRange volumes = peakVolume volumes - minVolume volumes"

definition silenceThreshold :: real where
  "silenceThreshold = 0.01"

definition silencePercent :: "real list \<Rightarrow> real" where
  "silencePercent volumes =
     (let silentSamples = length (filter (\<lambda>v. v < silenceThreshold) volumes)
      in (real silentSamples / real (length volumes)) * 100)"

definition noiseFloorSamples :: "real list \<Rightarrow> real list" where
  "noiseFloorSamples volumes =
     (let sortedVolumes = sort volumes
      in take (nat \<lceil>real (length sortedVolumes) * 0.1\<rceil>) sortedVolumes)"

definition noiseFloor :: "real list \<Rightarrow> real" where
  "noiseFloor volumes =
     reduce_add (noiseFloorSamples volumes) / real (length (noiseFloorSamples volumes))"

definition calculatedMetrics :: "real list \<Rightarrow> real list option" where
  "calculatedMetrics volumes =
     (if length volumes > 0
      then Some [avgVolume volumes, peakVolume volumes, volumeRange volumes,
                 silencePercent volumes, noiseFloor volumes]
      else None)"

text \<open>
  \<open>generateSummary\<close>. With no detection it sets the fallback text. Otherwise the text starts
  with the header line (a chart emoji, here its UTF-8 bytes, and the title) and goes on with
  a narrative and tables formatted from the detections, the recording time and the metrics;
  that remainder is the parameter \<open>body\<close>.
\<close>

definition noSounds :: string where
  "noSounds = ''No sounds were detected during this listening session.''"

definition summaryHeader :: string where
  "summaryHeader =
     [CHR 0xF0, CHR 0x9F, CHR 0x93, CHR 0x8A] @ '' Listening Session Summary'' @ [CHR 0x0A, CHR 0x0A]"

definition generateSummary :: "real list option \<Rightarrow> string \<Rightarrow> app \<Rightarrow> app" where
  "generateSummary noiseMetrics body s =
     (if length (detections s) = 0 then s\<lparr> summary := noSounds \<rparr>
      else s\<lparr> summary := summaryHeader @ body, isGeneratingSummary := False \<rparr>)"

definition stopListening :: "string \<Rightarrow> app \<Rightarrow> app" where
  "stopListening body s =
     (let s1 = s\<lparr> isListeningRef := False \<rparr>;
          s2 = (if length (spectrumSnapshotsRef s1) > 0
                then s1\<lparr> spectrumData := take 128 (averageSnapshots (spectrumSnapshotsRef s1)),
                         spectrumSnapshotsRef := [] \<rparr>
                else s1);
          s3 = s2\<lparr> timerIntervalRef := False \<rparr>;
          s4 = generateSummary (calculatedMetrics (volumeHistoryRef s3)) body s3;
          s5 = s4\<lparr> volumeHistoryRef := [] \<rparr>;
          s6 = s5\<lparr> scriptProcessorRef := False \<rparr>;
          s7 = s6\<lparr> audioBufferRef := [] \<rparr>
      in s7\<lparr> analyserRef := False, recordingTime := 0, status := Idle \<rparr>)"

section \<open>Sessions\<close>

text \<open>
  What can happen to a mounted component whose model load has finished. The two buttons are
  disabled as the JSX says (\<open>Start\<close> while loading or listening or without a model, \<open>Stop\<close>
  unless listening), and the audio callback runs only while the script processor is set.
  A classifier answer may arrive at any time, since \<open>processAudioChunk\<close> awaits it.
\<close>

datatype Event =
    StartClick bool
  | AudioProcess "real list \<times> real \<times> 8 word list"
  | Classified "Detection list"
  | StopClick string

fun step :: "Event \<Rightarrow> app \<Rightarrow> app" where
  "step (StartClick acquired) s =
     (if status s = Loading \<or> status s = Listening \<or> \<not> model s then s
      else startListening acquired s)"
| "step (AudioProcess e) s =
     (if scriptProcessorRef s then snd (onaudioprocess e s) else s)"
| "step (Classified predictions) s = setDetections (topPredictions predictions) s"
| "step (StopClick body) s =
     (if status s \<noteq> Listening then s else stopListening body s)"

definition run :: "Event list \<Rightarrow> app \<Rightarrow> app" where
  "run evs s = fold step evs s"

definition mounted :: "string list \<Rightarrow> app" where
  "mounted names = loadModel True (Some names) initial"

section \<open>Example inputs\<close>

definition speech :: Detection where
  "speech = \<lparr> id' = ''1-0.5'', label = ''Speech'', score = 0.8, timestamp = 1 \<rparr>"

definition music :: Detection where
  "music = \<lparr> id' = ''2-0.5'', label = ''Music'', score = 0.5, timestamp = 2 \<rparr>"

definition dog :: Detection where
  "dog = \<lparr> id' = ''2-0.7'', label = ''Dog'', score = 0.3, timestamp = 2 \<rparr>"

definition bird :: Detection where
  "bird = \<lparr> id' = ''3-0.1'', label = ''Bird'', score = 0.4, timestamp = 3 \<rparr>"

text \<open>A component whose model and class names are loaded, and the session it starts.\<close>

definition ready :: app where
  "ready = mounted [''Speech'', ''Music'', ''Dog'', ''Bird'']"

definition session :: app where
  "session = startListening True ready"


definition threeBursts :: "(real list \<times> real \<times> 8 word list) list" where
  "threeBursts = [(replicate 6000 0.1, 1, []), (replicate 6000 0.2, 1, []), (replicate 6000 0.3, 1, [])]"

definition longBurst :: "real list \<times> real \<times> 8 word list" where
  "longBurst = (replicate 31200 0, 1, [])"


text \<open>A burst of 4096 loud samples with a random draw below 0.1, and a burst of samples at
  the threshold 0.01 itself.\<close>

definition loudBurst :: "real list \<times> real \<times> 8 word list" where
  "loudBurst = (replicate 4096 0.5, 0.05, [7, 9])"

definition quietBurst :: "real list \<times> real \<times> 8 word list" where
  "quietBurst = (replicate 4096 0.01, 0.05, [7, 9])"

text \<open>A component whose model is loaded but whose class map failed to download; a burst of
  one whole frame; a first session that hears one frame, gets one detection and is stopped.\<close>

definition namesMissing :: app where
  "namesMissing = loadModel True None initial"

definition frameBurst :: "real list \<times> real \<times> 8 word list" where
  "frameBurst = (replicate 15600 0.5, 1, [])"

definition firstSession :: "Event list" where
  "firstSession = [StartClick True, AudioProcess frameBurst, Classified [speech], StopClick []]"

section \<open>The detection history\<close>

lemma take_append_take: "take n (xs @ take n ys) = take n (xs @ ys)"
  by (simp add: take_append min_def)

lemma setDetections_take:
  "length (detections s) \<le> 20 \<Longrightarrow> detections (setDetections b s) = take 20 (b @ detections s)"
  by (simp add: setDetections_def)

lemma setDetections_length:
  "length (detections s) \<le> 20 \<Longrightarrow> length (detections (setDetections b s)) \<le> 20"
  by (auto simp add: setDetections_def)

lemma fold_setDetections:
  "length (detections s) \<le> 20 \<Longrightarrow>
   detections (fold setDetections batches s) = take 20 (concat (rev batches) @ detections s)"
proof (induction batches arbitrary: s)
  case Nil
  then show ?case by simp
next
  case (Cons b bs)
  have le: "length (detections (setDetections b s)) \<le> 20"
    using Cons.prems by (rule setDetections_length)
  have "detections (fold setDetections (b # bs) s)
          = take 20 (concat (rev bs) @ take 20 (b @ detections s))"
    using Cons.IH[OF le] by (simp only: fold_simps setDetections_take[OF Cons.prems])
  also have "\<dots> = take 20 (concat (rev bs) @ b @ detections s)"
    by (rule take_append_take)
  finally show ?case by simp
qed

text \<open>
  C2. A history of at most twenty detections stays at most twenty long under any number of
  batches; it is always the first twenty of the batches, newest batch first and each batch
  in its own order, followed by the old history, so what falls out is the oldest. A
  non-empty batch puts its first element at index 0; an empty batch changes nothing.
\<close>

theorem detection_history_newest_first_capped:
  assumes "length (detections s) \<le> 20"
  shows "length (detections (fold setDetections batches s)) \<le> 20
       \<and> detections (fold setDetections batches s)
           = take 20 (concat (rev batches) @ detections s)
       \<and> (batch \<noteq> [] \<longrightarrow>
            detections (setDetections batch s) = take 20 (batch @ detections s)
          \<and> detections (setDetections batch s) ! 0 = batch ! 0)
       \<and> setDetections [] s = s"
proof -
  have eq: "detections (fold setDetections batches s)
              = take 20 (concat (rev batches) @ detections s)"
    using assms by (rule fold_setDetections)
  have len: "length (detections (fold setDetections batches s)) \<le> 20"
    by (simp only: eq length_take min.cobounded2)
  have hd: "detections (setDetections batch s) ! 0 = batch ! 0" if "batch \<noteq> []"
    using that by (cases batch) (simp_all add: setDetections_def)
  have "setDetections [] s = s"
    by (simp add: setDetections_def)
  with eq len hd setDetections_take[OF assms] show ?thesis by blast
qed

theorem detection_history_newest_first_capped_witness:
  "length (detections initial) \<le> 20
   \<and> detections (fold setDetections ([[speech], [music, dog]] @ replicate 18 [bird]) initial)
       = replicate 18 bird @ [music, dog]
   \<and> detections (setDetections [music, dog] (setDetections [speech] initial)) ! 0 = music"
proof -
  have h: "length (detections initial) \<le> 20"
    by (simp add: initial_def)
  have h2: "length (detections (setDetections [speech] initial)) \<le> 20"
    by (simp add: initial_def setDetections_def)
  have e: "take 20 (concat (rev ([[speech], [music, dog]] @ replicate 18 [bird])) @ detections initial)
             = replicate 18 bird @ [music, dog]"
    by code_simp
  from detection_history_newest_first_capped[OF h, of "[[speech], [music, dog]] @ replicate 18 [bird]" "[]"]
       detection_history_newest_first_capped[OF h2, of "[]" "[music, dog]"]
  show ?thesis
    by (simp only: e h) simp
qed

section \<open>Session statistics\<close>















text \<open>
  C7, as stated: the scenario \<open>[0.01, 0.02, 0.2, 0.03, 0.01]\<close> is said to report a silence
  fraction of 40 percent. With the strict comparison no sample is below the threshold, so
  the reported fraction is not 40.
\<close>

theorem scenario_silence_counterexample:
  "silencePercent [0.01, 0.02, 0.2, 0.03, 0.01] \<noteq> 40"
  by code_simp

text \<open>
  C7, amended: on \<open>[0.01, 0.02, 0.2, 0.03, 0.01]\<close> no sample is strictly below the threshold
  0.01, the silence fraction is 0 percent, and the noise floor is the mean of the lowest
  \<open>\<lceil>5 / 10\<rceil> = 1\<close> sample, 0.01.
\<close>

theorem scenario_silence_zero:
  "calculatedMetrics [0.01, 0.02, 0.2, 0.03, 0.01] = Some [0.054, 0.2, 0.19, 0, 0.01]
   \<and> length (filter (\<lambda>v. v < silenceThreshold) [0.01, 0.02, 0.2, 0.03, 0.01]) = 0
   \<and> silencePercent [0.01, 0.02, 0.2, 0.03, 0.01] = 0
   \<and> noiseFloorSamples [0.01, 0.02, 0.2, 0.03, 0.01] = [0.01]
   \<and> noiseFloor [0.01, 0.02, 0.2, 0.03, 0.01] = 0.01"
  by code_simp

section \<open>The audio callback\<close>

lemma processAudioChunk_ready:
  assumes "model s" "classNames s \<noteq> []" "isListeningRef s"
  shows "processAudioChunk s =
           (Some (take 15600 (audioBufferRef s)),
            s\<lparr> volumeHistoryRef := volumeHistoryRef s @ [rms (take 15600 (audioBufferRef s))],
               audioBufferRef := drop 15600 (audioBufferRef s) \<rparr>)"
  using assms by (simp add: processAudioChunk_def Let_def)

text \<open>What the callback leaves untouched.\<close>

lemma processAudioChunk_keeps:
  "model (snd (processAudioChunk s)) = model s"
  "classNames (snd (processAudioChunk s)) = classNames s"
  "isListeningRef (snd (processAudioChunk s)) = isListeningRef s"
  "analyserRef (snd (processAudioChunk s)) = analyserRef s"
  "spectrumSnapshotsRef (snd (processAudioChunk s)) = spectrumSnapshotsRef s"
  "spectrumData (snd (processAudioChunk s)) = spectrumData s"
  "detections (snd (processAudioChunk s)) = detections s"
  "status (snd (processAudioChunk s)) = status s"
  "scriptProcessorRef (snd (processAudioChunk s)) = scriptProcessorRef s"
  by (simp_all add: processAudioChunk_def Let_def)

lemma onaudioprocess_keeps:
  "model (snd (onaudioprocess e s)) = model s"
  "classNames (snd (onaudioprocess e s)) = classNames s"
  "isListeningRef (snd (onaudioprocess e s)) = isListeningRef s"
  "analyserRef (snd (onaudioprocess e s)) = analyserRef s"
  "spectrumData (snd (onaudioprocess e s)) = spectrumData s"
  "detections (snd (onaudioprocess e s)) = detections s"
  "status (snd (onaudioprocess e s)) = status s"
  "scriptProcessorRef (snd (onaudioprocess e s)) = scriptProcessorRef s"
  by (simp_all add: onaudioprocess_def Let_def processAudioChunk_keeps split: prod.split)

lemma feed_keeps:
  "model (snd (feed es s)) = model s"
  "classNames (snd (feed es s)) = classNames s"
  "isListeningRef (snd (feed es s)) = isListeningRef s"
  "analyserRef (snd (feed es s)) = analyserRef s"
  "spectrumData (snd (feed es s)) = spectrumData s"
  "detections (snd (feed es s)) = detections s"
  "status (snd (feed es s)) = status s"
  "scriptProcessorRef (snd (feed es s)) = scriptProcessorRef s"
  by (induction es arbitrary: s; simp add: onaudioprocess_keeps split: prod.split;
      metis onaudioprocess_keeps snd_conv)+

lemma session_simps:
  "model session" "classNames session \<noteq> []" "isListeningRef session"
  "audioBufferRef session = []" "volumeHistoryRef session = []"
  "spectrumSnapshotsRef session = []" "analyserRef session" "status session = Listening"
  "detections session = []" "spectrumData session = []" "scriptProcessorRef session"
  by (simp_all add: session_def ready_def mounted_def loadModel_def initial_def
      startListening_def Let_def)

subsection \<open>Volume of a frame\<close>






subsection \<open>Frames\<close>

text \<open>One callback in a running session, on a buffer that holds less than a frame.\<close>

lemma onaudioprocess_buffer:
  assumes g: "model s" "classNames s \<noteq> []" "isListeningRef s"
      and b: "length (audioBufferRef s) < 15600"
      and i: "length (fst e) \<le> 15600"
      and r: "onaudioprocess e s = (frame, s')"
  shows "(case frame of None \<Rightarrow> [] | Some f \<Rightarrow> f) @ audioBufferRef s' = audioBufferRef s @ fst e"
    and "length (audioBufferRef s') < 15600"
    and "\<forall>f. frame = Some f \<longrightarrow> length f = 15600"
    and "volumeHistoryRef s' = volumeHistoryRef s @ (case frame of None \<Rightarrow> [] | Some f \<Rightarrow> [rms f])"
proof -
  obtain inputData random analyserData where e: "e = (inputData, random, analyserData)"
    by (cases e)
  define s1 where "s1 = (if hasSound inputData then
                    (if analyserRef s \<and> length (spectrumSnapshotsRef s) < 50 \<and> random < 0.1
                     then s\<lparr> spectrumSnapshotsRef :=
                                spectrumSnapshotsRef s @ [getByteFrequencyData analyserData] \<rparr>
                     else s)
                  else s)"
  define s2 where "s2 = s1\<lparr> audioBufferRef := audioBufferRef s @ inputData \<rparr>"
  define B where "B = audioBufferRef s @ inputData"
  have s2: "model s2" "classNames s2 \<noteq> []" "isListeningRef s2"
    using g by (simp_all add: s2_def s1_def)
  have s2b: "audioBufferRef s2 = B" "volumeHistoryRef s2 = volumeHistoryRef s"
    by (simp_all add: s2_def s1_def B_def)
  have lenB: "length B < 31200"
    using b i by (simp add: B_def e)
  have run: "onaudioprocess e s
               = (if length B \<ge> 15600 then processAudioChunk s2 else (None, s2))"
    by (simp add: onaudioprocess_def e s2_def s1_def Let_def B_def)
  have res: "(frame, s') =
        (if length B \<ge> 15600
         then (Some (take 15600 B),
               s2\<lparr> volumeHistoryRef := volumeHistoryRef s @ [rms (take 15600 B)],
                   audioBufferRef := drop 15600 B \<rparr>)
         else (None, s2))"
    using r by (simp only: run processAudioChunk_ready[OF s2] s2b)
  have fe: "fst e = inputData" by (simp add: e)
  show "(case frame of None \<Rightarrow> [] | Some f \<Rightarrow> f) @ audioBufferRef s' = audioBufferRef s @ fst e"
    using res by (simp add: s2b fe B_def[symmetric] split: if_splits)
  show "length (audioBufferRef s') < 15600"
    using res lenB by (simp add: s2b split: if_splits)
  show "\<forall>f. frame = Some f \<longrightarrow> length f = 15600"
    using res by (auto split: if_splits)
  show "volumeHistoryRef s' = volumeHistoryRef s @ (case frame of None \<Rightarrow> [] | Some f \<Rightarrow> [rms f])"
    using res by (auto simp: s2b split: if_splits)
qed

lemma feed_buffer:
  assumes "model s" "classNames s \<noteq> []" "isListeningRef s"
      and "length (audioBufferRef s) < 15600"
      and "\<forall>e\<in>set es. length (fst e) \<le> 15600"
      and "feed es s = (frames, s')"
  shows "concat frames @ audioBufferRef s' = audioBufferRef s @ concat (map fst es)
       \<and> length (audioBufferRef s') < 15600
       \<and> (\<forall>f\<in>set frames. length f = 15600)
       \<and> volumeHistoryRef s' = volumeHistoryRef s @ map rms frames"
  using assms
proof (induction es arbitrary: s frames s')
  case Nil
  then show ?case by simp
next
  case (Cons e es)
  obtain frame s1 where o: "onaudioprocess e s = (frame, s1)"
    by (cases "onaudioprocess e s")
  obtain frames1 s2 where f: "feed es s1 = (frames1, s2)"
    by (cases "feed es s1")
  have fr: "frames = (case frame of None \<Rightarrow> [] | Some f \<Rightarrow> [f]) @ frames1" and s': "s' = s2"
    using Cons.prems(6) o f by simp_all
  have e: "length (fst e) \<le> 15600" and es: "\<forall>e\<in>set es. length (fst e) \<le> 15600"
    using Cons.prems(5) by simp_all
  note one = onaudioprocess_buffer[OF Cons.prems(1-4) e o]
  have g1: "model s1" "classNames s1 \<noteq> []" "isListeningRef s1"
    using onaudioprocess_keeps(1-3)[of e s] o Cons.prems(1-3) by simp_all
  note ih = Cons.IH[OF g1 one(2) es f]
  have "concat frames @ audioBufferRef s'
          = (case frame of None \<Rightarrow> [] | Some f \<Rightarrow> f) @ (concat frames1 @ audioBufferRef s2)"
    by (simp add: fr s' split: option.split)
  also have "\<dots> = (case frame of None \<Rightarrow> [] | Some f \<Rightarrow> f) @ audioBufferRef s1 @ concat (map fst es)"
    using ih by simp
  also have "\<dots> = audioBufferRef s @ concat (map fst (e # es))"
    using one(1) by (simp flip: append_assoc)
  finally have 1: "concat frames @ audioBufferRef s' = audioBufferRef s @ concat (map fst (e # es))" .
  have 2: "length (audioBufferRef s') < 15600"
    using ih s' by simp
  have 3: "\<forall>f\<in>set frames. length f = 15600"
    using ih one(3) by (auto simp: fr split: option.splits)
  have 4: "volumeHistoryRef s' = volumeHistoryRef s @ map rms frames"
    using ih one(4) by (simp add: fr s' split: option.splits)
  from 1 2 3 4 show ?case by blast
qed

lemma length_concat_frames:
  "\<forall>f\<in>set frames. length f = n \<Longrightarrow> length (concat frames) = n * length frames"
  by (induction frames) simp_all

text \<open>
  C1, amended: in a running session that starts on an empty buffer, for bursts of at most
  15,600 samples each (the script processor delivers 4096), the callbacks hand over exactly
  \<open>n div 15600\<close> frames for \<open>n\<close> samples in total, each of 15,600 samples; the frames
  followed by what stays in the buffer are the samples in arrival order, and \<open>n mod 15600\<close>
  samples stay in the buffer.
\<close>

theorem frames_of_bounded_bursts:
  assumes "model s" "classNames s \<noteq> []" "isListeningRef s"
      and "audioBufferRef s = []"
      and "\<forall>e\<in>set es. length (fst e) \<le> 15600"
      and "n = length (concat (map fst es))"
  shows "length (fst (feed es s)) = n div 15600
       \<and> (\<forall>f\<in>set (fst (feed es s)). length f = 15600)
       \<and> concat (fst (feed es s)) @ audioBufferRef (snd (feed es s)) = concat (map fst es)
       \<and> length (audioBufferRef (snd (feed es s))) = n mod 15600"
proof -
  obtain frames s' where f: "feed es s = (frames, s')"
    by (cases "feed es s")
  have b: "length (audioBufferRef s) < 15600"
    using assms(4) by simp
  note fb = feed_buffer[OF assms(1-3) b assms(5) f]
  have cat: "concat frames @ audioBufferRef s' = concat (map fst es)"
    using fb assms(4) by simp
  have all: "\<forall>f\<in>set frames. length f = 15600" and small: "length (audioBufferRef s') < 15600"
    using fb by simp_all
  have "n = length (concat frames) + length (audioBufferRef s')"
    using cat assms(6) by (metis length_append)
  then have tot: "n = 15600 * length frames + length (audioBufferRef s')"
    by (simp only: length_concat_frames[OF all])
  have d: "n div 15600 = length frames"
    using small by (simp add: tot)
  have m: "n mod 15600 = length (audioBufferRef s')"
    using small by (simp add: tot)
  from d m all cat show ?thesis
    by (simp add: f)
qed


theorem frames_of_bounded_bursts_witness:
  "model session \<and> classNames session \<noteq> [] \<and> isListeningRef session
   \<and> audioBufferRef session = []
   \<and> list_all (\<lambda>e. length (fst e) \<le> 15600) threeBursts
   \<and> length (concat (map fst threeBursts)) = 18000
   \<and> length (fst (feed threeBursts session)) = 1
   \<and> length (audioBufferRef (snd (feed threeBursts session))) = 2400"
proof -
  have b: "\<forall>e\<in>set threeBursts. length (fst e) \<le> 15600"
    by (simp add: threeBursts_def)
  have n: "18000 = length (concat (map fst threeBursts))"
    by (simp add: threeBursts_def)
  from frames_of_bounded_bursts[OF session_simps(1-4) b n] b n session_simps(1-4)
  show ?thesis by (simp add: list_all_iff)
qed

text \<open>
  C1, as stated, allows bursts of any positive length. A callback extracts at most one
  frame: a single burst of 31,200 samples yields one frame, not two, and leaves 15,600
  samples in the buffer, not none.
\<close>

theorem one_frame_per_callback_counterexample:
  "length (fst (feed [longBurst] session)) = 1
   \<and> length (fst longBurst) div 15600 = 2
   \<and> length (audioBufferRef (snd (feed [longBurst] session))) = 15600
   \<and> length (fst longBurst) mod 15600 = 0"
proof -
  have h: "\<not> hasSound (replicate 31200 0)"
    by (simp add: hasSound_def list_ex_iff)
  define s2 where "s2 = session\<lparr> audioBufferRef := replicate 31200 0 \<rparr>"
  have g: "model s2" "classNames s2 \<noteq> []" "isListeningRef s2"
    by (simp_all add: s2_def session_simps)
  have "onaudioprocess longBurst session = processAudioChunk s2"
    by (simp add: onaudioprocess_def longBurst_def h session_simps s2_def)
  then have "onaudioprocess longBurst session =
      (Some (replicate 15600 0),
       s2\<lparr> volumeHistoryRef := [rms (replicate 15600 0)], audioBufferRef := replicate 15600 0 \<rparr>)"
    by (simp add: processAudioChunk_ready[OF g]) (simp add: s2_def session_simps)
  then show ?thesis
    by (simp add: longBurst_def)
qed

section \<open>Spectrum snapshots\<close>

lemma onaudioprocess_snapshots:
  "spectrumSnapshotsRef (snd (onaudioprocess (inputData, random, analyserData) s)) =
     (if hasSound inputData \<and> analyserRef s \<and> length (spectrumSnapshotsRef s) < 50 \<and> random < 0.1
      then spectrumSnapshotsRef s @ [getByteFrequencyData analyserData]
      else spectrumSnapshotsRef s)"
  by (simp add: onaudioprocess_def Let_def processAudioChunk_keeps)

lemma feed_snapshots:
  "length (spectrumSnapshotsRef s) \<le> 50 \<Longrightarrow>
   spectrumSnapshotsRef (snd (feed es s)) =
     take 50 (spectrumSnapshotsRef s
              @ map (\<lambda>e. getByteFrequencyData (snd (snd e)))
                    (filter (\<lambda>e. hasSound (fst e) \<and> analyserRef s \<and> fst (snd e) < 0.1) es))"
proof (induction es arbitrary: s)
  case Nil
  then show ?case by simp
next
  case (Cons e es)
  obtain inputData random analyserData where e: "e = (inputData, random, analyserData)"
    by (cases e)
  obtain frame s1 where o: "onaudioprocess e s = (frame, s1)"
    by (cases "onaudioprocess e s")
  have s1: "s1 = snd (onaudioprocess e s)" by (simp add: o)
  have a1: "analyserRef s1 = analyserRef s"
    by (simp add: s1 onaudioprocess_keeps)
  have sn: "spectrumSnapshotsRef s1 =
     (if hasSound inputData \<and> analyserRef s \<and> length (spectrumSnapshotsRef s) < 50 \<and> random < 0.1
      then spectrumSnapshotsRef s @ [getByteFrequencyData analyserData]
      else spectrumSnapshotsRef s)"
    by (simp only: s1 e onaudioprocess_snapshots)
  have le: "length (spectrumSnapshotsRef s1) \<le> 50"
    using Cons.prems by (simp add: sn)
  have f: "snd (feed (e # es) s) = snd (feed es s1)"
    by (simp add: o split: prod.split)
  let ?g = "\<lambda>e. getByteFrequencyData (snd (snd e))"
  let ?p = "\<lambda>e. hasSound (fst e) \<and> analyserRef s \<and> fst (snd e) < 0.1"
  have ih: "spectrumSnapshotsRef (snd (feed (e # es) s)) =
              take 50 (spectrumSnapshotsRef s1 @ map ?g (filter ?p es))"
    using Cons.IH[OF le] by (simp only: f a1)
  show ?case
  proof (cases "?p e")
    case False
    then have "spectrumSnapshotsRef s1 = spectrumSnapshotsRef s"
      by (auto simp: sn e)
    with False show ?thesis
      by (simp only: ih filter.simps if_False)
  next
    case acc: True
    then have fl: "map ?g (filter ?p (e # es)) = getByteFrequencyData analyserData # map ?g (filter ?p es)"
      by (simp add: e)
    show ?thesis
    proof (cases "length (spectrumSnapshotsRef s) < 50")
      case True
      then have "spectrumSnapshotsRef s1 = spectrumSnapshotsRef s @ [getByteFrequencyData analyserData]"
        using acc by (simp add: sn e)
      then show ?thesis
        by (simp only: ih fl) simp
    next
      case False
      with Cons.prems have full: "length (spectrumSnapshotsRef s) = 50" by simp
      have "spectrumSnapshotsRef s1 = spectrumSnapshotsRef s"
        using False by (simp add: sn)
      then show ?thesis
        using full by (simp only: ih) simp
    qed
  qed
qed


lemma startListening_ready:
  assumes "model s" "classNames s \<noteq> []"
  shows "startListening True s =
           s\<lparr> status := Listening, error := [], spectrumData := [], spectrumSnapshotsRef := [],
              analyserRef := True, scriptProcessorRef := True,
              isListeningRef := True, recordingTime := 0, timerIntervalRef := True \<rparr>"
    and "startListening False s =
           s\<lparr> status := Error, error := ''Failed to access microphone. Please check permissions.'',
              spectrumData := [], spectrumSnapshotsRef := [] \<rparr>"
  using assms by (simp_all add: startListening_def Let_def)

lemma startListening_snapshots:
  "length (spectrumSnapshotsRef (startListening acquired s)) \<le> length (spectrumSnapshotsRef s)"
  by (simp add: startListening_def Let_def)

lemma stopListening_fields:
  "spectrumSnapshotsRef (stopListening body s) = []"
  "audioBufferRef (stopListening body s) = []"
  "volumeHistoryRef (stopListening body s) = []"
  "status (stopListening body s) = Idle"
  "scriptProcessorRef (stopListening body s) = False"
  "isListeningRef (stopListening body s) = False"
  "detections (stopListening body s) = detections s"
  "model (stopListening body s) = model s"
  "classNames (stopListening body s) = classNames s"
  "spectrumData (stopListening body s) =
     (if spectrumSnapshotsRef s \<noteq> [] then take 128 (averageSnapshots (spectrumSnapshotsRef s))
      else spectrumData s)"
  "summary (stopListening body s) =
     (if detections s = [] then noSounds else summaryHeader @ body)"
  by (simp_all add: stopListening_def generateSummary_def Let_def)

lemma step_snapshots:
  "length (spectrumSnapshotsRef s) \<le> 50 \<Longrightarrow> length (spectrumSnapshotsRef (step ev s)) \<le> 50"
proof (cases ev)
  case (StartClick acquired)
  assume "length (spectrumSnapshotsRef s) \<le> 50"
  then show ?thesis
    using startListening_snapshots[of acquired s] by (simp add: StartClick)
next
  case (AudioProcess e)
  assume "length (spectrumSnapshotsRef s) \<le> 50"
  then show ?thesis
    by (cases e) (simp add: AudioProcess onaudioprocess_snapshots)
next
  case (Classified predictions)
  assume "length (spectrumSnapshotsRef s) \<le> 50"
  then show ?thesis
    by (simp add: Classified setDetections_def)
next
  case (StopClick body)
  assume "length (spectrumSnapshotsRef s) \<le> 50"
  then show ?thesis
    by (simp add: StopClick stopListening_fields)
qed

lemma run_snapshots:
  "length (spectrumSnapshotsRef s) \<le> 50 \<Longrightarrow> length (spectrumSnapshotsRef (run evs s)) \<le> 50"
  unfolding run_def
  by (induction evs arbitrary: s) (simp_all add: step_snapshots)

text \<open>
  C3. From at most fifty stored snapshots, no run of events and no run of callbacks stores
  more than fifty. With fifty stored, a callback leaves the collection as it is. After any
  callbacks the collection is the first fifty of the old snapshots followed by the accepted
  ones (sound in the burst and a random draw below 0.1) in order; in a session, which starts
  empty, it is the first fifty accepted snapshots, and these are what \<open>stopListening\<close>
  averages.
\<close>

theorem snapshots_capped_first_fifty:
  assumes "length (spectrumSnapshotsRef s) \<le> 50"
  shows "length (spectrumSnapshotsRef (run evs s)) \<le> 50
       \<and> length (spectrumSnapshotsRef (snd (feed es s))) \<le> 50
       \<and> (length (spectrumSnapshotsRef s) = 50 \<longrightarrow>
            spectrumSnapshotsRef (snd (onaudioprocess e s)) = spectrumSnapshotsRef s)
       \<and> spectrumSnapshotsRef (snd (feed es s)) =
            take 50 (spectrumSnapshotsRef s
                     @ map (\<lambda>e. getByteFrequencyData (snd (snd e)))
                           (filter (\<lambda>e. hasSound (fst e) \<and> analyserRef s \<and> fst (snd e) < 0.1) es))
       \<and> (model s \<and> classNames s \<noteq> [] \<longrightarrow>
            spectrumSnapshotsRef (snd (feed es (startListening True s))) =
              take 50 (map (\<lambda>e. getByteFrequencyData (snd (snd e)))
                           (filter (\<lambda>e. hasSound (fst e) \<and> fst (snd e) < 0.1) es)))
       \<and> (spectrumSnapshotsRef s \<noteq> [] \<longrightarrow>
            spectrumData (stopListening body s)
              = take 128 (averageSnapshots (spectrumSnapshotsRef s)))"
proof -
  have 1: "length (spectrumSnapshotsRef (run evs s)) \<le> 50"
    using assms by (rule run_snapshots)
  have 4: "spectrumSnapshotsRef (snd (feed es s)) =
            take 50 (spectrumSnapshotsRef s
                     @ map (\<lambda>e. getByteFrequencyData (snd (snd e)))
                           (filter (\<lambda>e. hasSound (fst e) \<and> analyserRef s \<and> fst (snd e) < 0.1) es))"
    using assms by (rule feed_snapshots)
  have 2: "length (spectrumSnapshotsRef (snd (feed es s))) \<le> 50"
    by (simp only: 4 length_take min.cobounded2)
  have 3: "spectrumSnapshotsRef (snd (onaudioprocess e s)) = spectrumSnapshotsRef s"
    if "length (spectrumSnapshotsRef s) = 50"
    using that by (cases e) (simp add: onaudioprocess_snapshots)
  have 5: "spectrumSnapshotsRef (snd (feed es (startListening True s))) =
              take 50 (map (\<lambda>e. getByteFrequencyData (snd (snd e)))
                           (filter (\<lambda>e. hasSound (fst e) \<and> fst (snd e) < 0.1) es))"
    if "model s \<and> classNames s \<noteq> []"
  proof -
    have st: "spectrumSnapshotsRef (startListening True s) = []" "analyserRef (startListening True s)"
      using that by (simp_all add: startListening_ready)
    have "length (spectrumSnapshotsRef (startListening True s)) \<le> 50"
      by (simp add: st)
    from feed_snapshots[OF this, of es] show ?thesis
      by (simp add: st)
  qed
  have 6: "spectrumData (stopListening body s)
              = take 128 (averageSnapshots (spectrumSnapshotsRef s))"
    if "spectrumSnapshotsRef s \<noteq> []"
    using that by (simp add: stopListening_fields)
  from 1 2 3 4 5 6 show ?thesis by blast
qed


lemma ready_simps:
  "model ready" "classNames ready \<noteq> []" "status ready = Idle" "detections ready = []"
  "audioBufferRef ready = []" "volumeHistoryRef ready = []" "spectrumSnapshotsRef ready = []"
  "spectrumData ready = []" "\<not> scriptProcessorRef ready"
  by (simp_all add: ready_def mounted_def loadModel_def initial_def Let_def)

lemma hasSound_loud: "hasSound (fst loudBurst)" "fst (snd loudBurst) < 0.1"
  by (auto simp add: loudBurst_def hasSound_def list_ex_iff intro: exI[of _ "1/2"])

theorem snapshots_capped_first_fifty_witness:
  "length (spectrumSnapshotsRef ready) \<le> 50 \<and> model ready \<and> classNames ready \<noteq> []
   \<and> spectrumSnapshotsRef (snd (feed (replicate 60 loudBurst) session))
        = replicate 50 (getByteFrequencyData [7, 9])
   \<and> spectrumSnapshotsRef (snd (onaudioprocess loudBurst (snd (feed (replicate 60 loudBurst) session))))
        = replicate 50 (getByteFrequencyData [7, 9])"
proof -
  let ?full = "snd (feed (replicate 60 loudBurst) session)"
  have h: "length (spectrumSnapshotsRef ready) \<le> 50"
    by (simp add: ready_simps)
  have a: "spectrumSnapshotsRef ?full = replicate 50 (getByteFrequencyData [7, 9])"
    using snapshots_capped_first_fifty[OF h, of "[]" "replicate 60 loudBurst" loudBurst "[]"]
      hasSound_loud
    by (simp add: ready_simps session_def loudBurst_def)
  then have l: "length (spectrumSnapshotsRef ?full) \<le> 50" "length (spectrumSnapshotsRef ?full) = 50"
    by simp_all
  have b: "spectrumSnapshotsRef (snd (onaudioprocess loudBurst ?full)) = spectrumSnapshotsRef ?full"
    using snapshots_capped_first_fifty[OF l(1), of "[]" "[]" loudBurst "[]"] l(2)
    by blast
  from a b h show ?thesis
    by (simp add: ready_simps)
qed

lemma onaudioprocess_quiet:
  "\<forall>x\<in>set (fst e). \<bar>x\<bar> \<le> 0.01 \<Longrightarrow>
   spectrumSnapshotsRef (snd (onaudioprocess e s)) = spectrumSnapshotsRef s"
  by (cases e) (auto simp add: onaudioprocess_snapshots hasSound_def list_ex_iff)

lemma step_quiet:
  assumes "\<forall>e. ev = AudioProcess e \<longrightarrow> (\<forall>x\<in>set (fst e). \<bar>x\<bar> \<le> 0.01)"
      and "spectrumSnapshotsRef s = [] \<and> spectrumData s = []"
  shows "spectrumSnapshotsRef (step ev s) = [] \<and> spectrumData (step ev s) = []"
proof (cases ev)
  case (StartClick acquired)
  then show ?thesis
    using assms(2) by (simp add: startListening_def Let_def)
next
  case (AudioProcess e)
  then show ?thesis
    using assms by (simp add: onaudioprocess_quiet onaudioprocess_keeps)
next
  case (Classified predictions)
  then show ?thesis
    using assms(2) by (simp add: setDetections_def)
next
  case (StopClick body)
  then show ?thesis
    using assms(2) by (simp add: stopListening_fields)
qed

lemma run_quiet:
  assumes "\<forall>e. AudioProcess e \<in> set evs \<longrightarrow> (\<forall>x\<in>set (fst e). \<bar>x\<bar> \<le> 0.01)"
      and "spectrumSnapshotsRef s = [] \<and> spectrumData s = []"
  shows "spectrumSnapshotsRef (run evs s) = [] \<and> spectrumData (run evs s) = []"
  using assms unfolding run_def
proof (induction evs arbitrary: s)
  case Nil
  then show ?case by simp
next
  case (Cons ev evs)
  have "spectrumSnapshotsRef (step ev s) = [] \<and> spectrumData (step ev s) = []"
    using Cons.prems by (intro step_quiet) auto
  moreover have "\<forall>e. AudioProcess e \<in> set evs \<longrightarrow> (\<forall>x\<in>set (fst e). \<bar>x\<bar> \<le> 0.01)"
    using Cons.prems(1) by auto
  ultimately show ?case
    using Cons.IH by simp
qed

text \<open>
  C10. A callback changes the snapshot collection only if its burst has a sample of absolute
  value above 0.01. So after a successful start, whatever events follow and whatever the
  random draws are, if every sample of every burst is at most 0.01 in absolute value then
  the collection stays empty and the spectrum is empty, also after \<open>stopListening\<close>.
\<close>

theorem quiet_session_captures_nothing:
  "(spectrumSnapshotsRef (snd (onaudioprocess e s)) \<noteq> spectrumSnapshotsRef s
      \<longrightarrow> (\<exists>x\<in>set (fst e). \<bar>x\<bar> > 0.01))
   \<and> ((\<forall>e. AudioProcess e \<in> set evs \<longrightarrow> (\<forall>x\<in>set (fst e). \<bar>x\<bar> \<le> 0.01))
        \<and> model s \<and> classNames s \<noteq> []
      \<longrightarrow> spectrumSnapshotsRef (run evs (startListening True s)) = []
        \<and> spectrumData (run evs (startListening True s)) = []
        \<and> spectrumData (stopListening body (run evs (startListening True s))) = [])"
proof -
  have 1: "\<exists>x\<in>set (fst e). \<bar>x\<bar> > 0.01"
    if "spectrumSnapshotsRef (snd (onaudioprocess e s)) \<noteq> spectrumSnapshotsRef s"
    using that onaudioprocess_quiet[of e s] by fastforce
  have 2: "spectrumSnapshotsRef (run evs (startListening True s)) = []
        \<and> spectrumData (run evs (startListening True s)) = []
        \<and> spectrumData (stopListening body (run evs (startListening True s))) = []"
    if q: "\<forall>e. AudioProcess e \<in> set evs \<longrightarrow> (\<forall>x\<in>set (fst e). \<bar>x\<bar> \<le> 0.01)"
      and r: "model s" "classNames s \<noteq> []"
  proof -
    have "spectrumSnapshotsRef (startListening True s) = [] \<and> spectrumData (startListening True s) = []"
      by (simp add: startListening_ready[OF r])
    from run_quiet[OF q this] show ?thesis
      by (simp add: stopListening_fields)
  qed
  from 1 2 show ?thesis by blast
qed

theorem quiet_session_captures_nothing_witness:
  "list_all (\<lambda>x. \<bar>x\<bar> \<le> 0.01) (fst quietBurst)
   \<and> model ready \<and> classNames ready \<noteq> []
   \<and> spectrumSnapshotsRef (run [AudioProcess quietBurst, Classified [speech], AudioProcess quietBurst] session) = []
   \<and> spectrumData (stopListening [] (run [AudioProcess quietBurst, Classified [speech], AudioProcess quietBurst] session)) = []
   \<and> spectrumSnapshotsRef (snd (onaudioprocess loudBurst session)) \<noteq> spectrumSnapshotsRef session
   \<and> (\<exists>x\<in>set (fst loudBurst). \<bar>x\<bar> > 0.01)"
proof -
  let ?evs = "[AudioProcess quietBurst, Classified [speech], AudioProcess quietBurst]"
  have q: "\<forall>e. AudioProcess e \<in> set ?evs \<longrightarrow> (\<forall>x\<in>set (fst e). \<bar>x\<bar> \<le> 0.01)"
    by (simp add: quietBurst_def)
  have c: "spectrumSnapshotsRef (snd (onaudioprocess loudBurst session)) \<noteq> spectrumSnapshotsRef session"
    using hasSound_loud by (simp add: loudBurst_def onaudioprocess_snapshots session_simps)
  have l: "list_all (\<lambda>x. \<bar>x\<bar> \<le> 0.01) (fst quietBurst)"
    by (simp add: quietBurst_def list_all_iff)
  from quiet_session_captures_nothing[of loudBurst session "[]" "[]"]
       quiet_session_captures_nothing[of loudBurst ready ?evs "[]"] q c l
  show ?thesis
    by (simp add: ready_simps session_def)
qed

section \<open>Starting and stopping\<close>

text \<open>
  C9, amended: a start request without a model or without class names only sets the error
  text \<open>Model not loaded yet\<close>. The status stays what it was, and the sample buffer, the
  volume history, the snapshot collection and the detection history are unchanged.
\<close>

theorem start_refused_when_not_ready:
  assumes "\<not> model s \<or> classNames s = []"
  shows "startListening acquired s = s\<lparr> error := ''Model not loaded yet'' \<rparr>
       \<and> status (startListening acquired s) = status s
       \<and> audioBufferRef (startListening acquired s) = audioBufferRef s
       \<and> volumeHistoryRef (startListening acquired s) = volumeHistoryRef s
       \<and> spectrumSnapshotsRef (startListening acquired s) = spectrumSnapshotsRef s
       \<and> detections (startListening acquired s) = detections s"
  using assms by (auto simp add: startListening_def)

theorem start_refused_when_not_ready_witness:
  "\<not> model initial \<and> classNames initial = []
   \<and> startListening True initial = initial\<lparr> error := ''Model not loaded yet'' \<rparr>
   \<and> status (startListening True initial) = Idle"
proof -
  have h: "\<not> model initial \<or> classNames initial = []"
    by (simp add: initial_def)
  from start_refused_when_not_ready[OF h, of True] h show ?thesis
    by (simp add: initial_def)
qed

text \<open>
  C9, as stated, has the controller back in Idle after the refusal. When the class map failed
  to load, the status is Error and the model is set, so the start button is enabled; the
  refused start request leaves the status at Error.
\<close>

theorem start_refused_in_error_counterexample:
  "status namesMissing = Error \<and> model namesMissing \<and> classNames namesMissing = []
   \<and> step (StartClick True) namesMissing = startListening True namesMissing
   \<and> status (startListening True namesMissing) = Error
   \<and> status (startListening True namesMissing) \<noteq> Idle"
  by (simp add: namesMissing_def loadModel_def initial_def startListening_def Let_def)

text \<open>
  Outside a session the buffer and the volume history are empty and no callback is
  registered: \<open>stopListening\<close> clears them, and only a running session fills them.
\<close>

lemma step_idle_invariant:
  assumes "status s \<noteq> Loading"
      and "status s \<noteq> Listening \<longrightarrow>
             audioBufferRef s = [] \<and> volumeHistoryRef s = [] \<and> \<not> scriptProcessorRef s"
  shows "status (step ev s) \<noteq> Loading
       \<and> (status (step ev s) \<noteq> Listening \<longrightarrow>
             audioBufferRef (step ev s) = [] \<and> volumeHistoryRef (step ev s) = []
           \<and> \<not> scriptProcessorRef (step ev s))"
proof (cases ev)
  case (StartClick acquired)
  then show ?thesis
    using assms by (cases acquired) (auto simp add: startListening_def Let_def)
next
  case (AudioProcess e)
  then show ?thesis
    using assms by (auto simp add: onaudioprocess_keeps)
next
  case (Classified predictions)
  then show ?thesis
    using assms by (auto simp add: setDetections_def)
next
  case (StopClick body)
  then show ?thesis
    using assms by (auto simp add: stopListening_fields)
qed

lemma run_idle_invariant:
  assumes "status s \<noteq> Loading"
      and "status s \<noteq> Listening \<longrightarrow>
             audioBufferRef s = [] \<and> volumeHistoryRef s = [] \<and> \<not> scriptProcessorRef s"
  shows "status (run evs s) \<noteq> Loading
       \<and> (status (run evs s) \<noteq> Listening \<longrightarrow>
             audioBufferRef (run evs s) = [] \<and> volumeHistoryRef (run evs s) = []
           \<and> \<not> scriptProcessorRef (run evs s))"
  using assms unfolding run_def
proof (induction evs arbitrary: s)
  case Nil
  then show ?case by simp
next
  case (Cons ev evs)
  from step_idle_invariant[OF Cons.prems, of ev] Cons.IH[of "step ev s"]
  show ?case by simp
qed

lemma step_model:
  "model (step ev s) = model s \<and> classNames (step ev s) = classNames s"
  by (cases ev) (auto simp add: startListening_def Let_def onaudioprocess_keeps
      setDetections_def stopListening_fields)

lemma run_model:
  "model (run evs s) = model s \<and> classNames (run evs s) = classNames s"
  unfolding run_def by (induction evs arbitrary: s) (simp_all add: step_model)

lemma mounted_simps:
  "model (mounted names)" "classNames (mounted names) = names" "status (mounted names) = Idle"
  "audioBufferRef (mounted names) = []" "volumeHistoryRef (mounted names) = []"
  "\<not> scriptProcessorRef (mounted names)" "detections (mounted names) = []"
  by (simp_all add: mounted_def loadModel_def initial_def Let_def)

text \<open>
  C4, amended: in every state that a mounted component with class names reaches outside a
  session, a successful start request enters Listening with an empty sample buffer, an empty
  volume history and an empty snapshot collection; the detection history is not reset, it
  is what it was before the start.
\<close>

theorem start_resets_all_but_detections:
  assumes "names \<noteq> []"
      and "s = run evs (mounted names)"
      and "status s \<noteq> Listening"
  shows "step (StartClick True) s = startListening True s
       \<and> status (startListening True s) = Listening
       \<and> audioBufferRef (startListening True s) = []
       \<and> volumeHistoryRef (startListening True s) = []
       \<and> spectrumSnapshotsRef (startListening True s) = []
       \<and> detections (startListening True s) = detections s"
proof -
  have m: "model s" "classNames s \<noteq> []"
    using assms(1) by (simp_all add: assms(2) run_model mounted_simps)
  have "status s \<noteq> Loading
       \<and> (status s \<noteq> Listening \<longrightarrow>
             audioBufferRef s = [] \<and> volumeHistoryRef s = [] \<and> \<not> scriptProcessorRef s)"
    unfolding assms(2) by (rule run_idle_invariant) (simp_all add: mounted_simps)
  with assms(3) have i: "status s \<noteq> Loading" "audioBufferRef s = []" "volumeHistoryRef s = []"
    by simp_all
  show ?thesis
    using i assms(3) m by (simp add: startListening_ready[OF m])
qed

lemma run_firstSession:
  "status (run firstSession ready) = Idle"
  "detections (run firstSession ready) = [speech]"
  "volumeHistoryRef (run firstSession ready) = []"
proof -
  have a: "snd (onaudioprocess frameBurst session) =
        session\<lparr> audioBufferRef := [], volumeHistoryRef := [rms (replicate 15600 0.5)] \<rparr>"
  proof -
    define s2 where "s2 = session\<lparr> audioBufferRef := replicate 15600 0.5 \<rparr>"
    have g: "model s2" "classNames s2 \<noteq> []" "isListeningRef s2"
      by (simp_all add: s2_def session_simps)
    have "onaudioprocess frameBurst session = processAudioChunk s2"
      by (simp add: onaudioprocess_def frameBurst_def Let_def session_simps s2_def)
    then show ?thesis
      by (simp add: processAudioChunk_ready[OF g]) (simp add: s2_def session_simps)
  qed
  have t: "topPredictions [speech] = [speech]"
    by (simp add: topPredictions_def speech_def)
  have r: "run firstSession ready =
        stopListening []
          (session\<lparr> audioBufferRef := [], volumeHistoryRef := [rms (replicate 15600 0.5)],
                   detections := [speech] \<rparr>)"
    by (simp add: run_def firstSession_def ready_simps session_def[symmetric] session_simps a t
        setDetections_def)
  show "status (run firstSession ready) = Idle"
       "detections (run firstSession ready) = [speech]"
       "volumeHistoryRef (run firstSession ready) = []"
    by (simp_all add: r stopListening_fields)
qed

text \<open>
  C4, as stated, has the detection history empty on entering Listening. After a first session
  with one detection, the second start enters Listening with that detection still in the
  history.
\<close>

theorem start_keeps_detections_counterexample:
  "status (run (firstSession @ [StartClick True]) ready) = Listening
   \<and> detections (run (firstSession @ [StartClick True]) ready) = [speech]"
proof -
  have m: "model (run firstSession ready)" "classNames (run firstSession ready) \<noteq> []"
    by (simp_all add: run_model ready_simps)
  have "run (firstSession @ [StartClick True]) ready = startListening True (run firstSession ready)"
    by (simp add: run_def run_firstSession[unfolded run_def] m[unfolded run_def])
  then show ?thesis
    by (simp add: startListening_ready[OF m] run_firstSession)
qed

theorem start_resets_all_but_detections_witness:
  "[''Speech'', ''Music'', ''Dog'', ''Bird''] \<noteq> []
   \<and> status (run firstSession ready) \<noteq> Listening
   \<and> audioBufferRef (startListening True (run firstSession ready)) = []
   \<and> volumeHistoryRef (startListening True (run firstSession ready)) = []
   \<and> spectrumSnapshotsRef (startListening True (run firstSession ready)) = []
   \<and> detections (startListening True (run firstSession ready)) = [speech]"
proof -
  have n: "[''Speech'', ''Music'', ''Dog'', ''Bird''] \<noteq> []" by simp
  have s: "run firstSession ready = run firstSession (mounted [''Speech'', ''Music'', ''Dog'', ''Bird''])"
    by (simp add: ready_def)
  have l: "status (run firstSession ready) \<noteq> Listening"
    by (simp add: run_firstSession)
  from start_resets_all_but_detections[OF n s l] l show ?thesis
    by (simp add: run_firstSession)
qed


lemma processAudioChunk_volumes:
  "volumeHistoryRef (snd (processAudioChunk s)) =
     volumeHistoryRef s @ (case fst (processAudioChunk s) of None \<Rightarrow> [] | Some f \<Rightarrow> [rms f])"
  by (simp add: processAudioChunk_def Let_def)

lemma onaudioprocess_volumes:
  "volumeHistoryRef (snd (onaudioprocess e s)) =
     volumeHistoryRef s @ (case fst (onaudioprocess e s) of None \<Rightarrow> [] | Some f \<Rightarrow> [rms f])"
  by (cases e) (simp add: onaudioprocess_def Let_def processAudioChunk_volumes)

lemma feed_volumes:
  "volumeHistoryRef (snd (feed es s)) = volumeHistoryRef s @ map rms (fst (feed es s))"
proof (induction es arbitrary: s)
  case Nil
  then show ?case by simp
next
  case (Cons e es)
  obtain frame s1 where o: "onaudioprocess e s = (frame, s1)"
    by (cases "onaudioprocess e s")
  obtain frames s2 where f: "feed es s1 = (frames, s2)"
    by (cases "feed es s1")
  have "volumeHistoryRef s1 = volumeHistoryRef s @ (case frame of None \<Rightarrow> [] | Some f \<Rightarrow> [rms f])"
    using onaudioprocess_volumes[of e s] by (simp add: o)
  moreover have "volumeHistoryRef s2 = volumeHistoryRef s1 @ map rms frames"
    using Cons.IH[of s1] by (simp add: f)
  ultimately show ?case
    by (simp add: o f split: option.split)
qed

lemma length_getByteFrequencyData: "length (getByteFrequencyData d) = 1024"
  by (simp add: getByteFrequencyData_def frequencyBinCount_def)

lemma length_averageSnapshots: "length (averageSnapshots snapshots) = length (snapshots ! 0)"
  by (simp add: averageSnapshots_def Let_def)

text \<open>
  C8, amended: stopping a session that started on an empty volume history and an empty
  detection history, in which no frame was processed and no snapshot was captured, computes
  no statistics, leaves the spectrum empty, sets the no-sounds text as the summary and
  returns to Idle.
\<close>

theorem empty_session_stop:
  assumes "model s0" "classNames s0 \<noteq> []"
      and "volumeHistoryRef s0 = []" "detections s0 = []"
      and "feed es (startListening True s0) = ([], s)"
      and "spectrumSnapshotsRef s = []"
  shows "calculatedMetrics (volumeHistoryRef s) = None
       \<and> spectrumData (stopListening body s) = []
       \<and> summary (stopListening body s) = noSounds
       \<and> status (stopListening body s) = Idle"
proof -
  let ?start = "startListening True s0"
  have s: "s = snd (feed es ?start)" and fr: "fst (feed es ?start) = []"
    by (simp_all add: assms(5))
  have st: "volumeHistoryRef ?start = []" "detections ?start = []" "spectrumData ?start = []"
    using assms(3,4) by (simp_all add: startListening_ready[OF assms(1,2)])
  have v: "volumeHistoryRef s = []"
    by (simp add: s feed_volumes fr st)
  have d: "detections s = []" and sp: "spectrumData s = []"
    by (simp_all add: s feed_keeps st)
  have 1: "calculatedMetrics (volumeHistoryRef s) = None"
    by (simp add: v calculatedMetrics_def)
  from 1 d sp assms(6) show ?thesis
    by (simp add: stopListening_fields)
qed

lemma feed_quietBurst:
  "feed [quietBurst] session = ([], session\<lparr> audioBufferRef := replicate 4096 0.01 \<rparr>)"
proof -
  have "\<not> hasSound (replicate 4096 0.01)"
    by (simp add: hasSound_def list_ex_iff)
  then show ?thesis
    by (simp add: onaudioprocess_def quietBurst_def Let_def session_simps)
qed

theorem empty_session_stop_witness:
  "model ready \<and> classNames ready \<noteq> [] \<and> volumeHistoryRef ready = [] \<and> detections ready = []
   \<and> feed [quietBurst] (startListening True ready)
        = ([], session\<lparr> audioBufferRef := replicate 4096 0.01 \<rparr>)
   \<and> spectrumSnapshotsRef (session\<lparr> audioBufferRef := replicate 4096 0.01 \<rparr>) = []
   \<and> spectrumData (stopListening [] (session\<lparr> audioBufferRef := replicate 4096 0.01 \<rparr>)) = []
   \<and> summary (stopListening [] (session\<lparr> audioBufferRef := replicate 4096 0.01 \<rparr>)) = noSounds"
proof -
  have f: "feed [quietBurst] (startListening True ready)
        = ([], session\<lparr> audioBufferRef := replicate 4096 0.01 \<rparr>)"
    using feed_quietBurst by (simp only: session_def)
  have e: "spectrumSnapshotsRef (session\<lparr> audioBufferRef := replicate 4096 0.01 \<rparr>) = []"
    by (simp add: session_simps)
  from empty_session_stop[OF ready_simps(1,2,6,4) f e, of "[]"] f e show ?thesis
    by (simp add: ready_simps)
qed

text \<open>
  C8, as stated, needs only that no frame was processed. A snapshot is captured per burst,
  before a frame is complete: one loud burst of 4096 samples with a random draw below 0.1
  gives no frame and a spectrum of 128 bins. And the detection history outlives a session:
  a second session without any frame, after a first one with a detection, is summarised
  with the full text, not the no-sounds text.
\<close>

theorem empty_session_stop_counterexample:
  "fst (feed [loudBurst] session) = []
   \<and> spectrumData (stopListening [] (snd (feed [loudBurst] session))) \<noteq> []
   \<and> fst (feed [] (startListening True (run firstSession ready))) = []
   \<and> summary (stopListening [] (snd (feed [] (startListening True (run firstSession ready)))))
       \<noteq> noSounds"
proof -
  have a: "feed [loudBurst] session =
       ([], session\<lparr> spectrumSnapshotsRef := [getByteFrequencyData [7, 9]],
                     audioBufferRef := replicate 4096 0.5 \<rparr>)"
    using hasSound_loud
    by (simp add: onaudioprocess_def loudBurst_def Let_def session_simps)
  have "length (spectrumData (stopListening [] (snd (feed [loudBurst] session)))) = 128"
    unfolding a
    by (simp add: stopListening_fields length_averageSnapshots length_getByteFrequencyData)
  then have 1: "spectrumData (stopListening [] (snd (feed [loudBurst] session))) \<noteq> []"
    by auto
  have m: "model (run firstSession ready)" "classNames (run firstSession ready) \<noteq> []"
    by (simp_all add: run_model ready_simps)
  have "summary (stopListening [] (snd (feed [] (startListening True (run firstSession ready)))))
          = summaryHeader @ []"
    by (simp add: stopListening_fields startListening_ready[OF m] run_firstSession)
  then have 2: "summary (stopListening [] (snd (feed [] (startListening True (run firstSession ready)))))
       \<noteq> noSounds"
    by (simp add: summaryHeader_def noSounds_def)
  have 0: "fst (feed [loudBurst] session) = []"
    unfolding a by simp
  from 0 1 2 show ?thesis by simp
qed

end
